theory Spec2Isabelle
  imports Main "HOL-Library.Log_Nat"
begin

section \<open>JavaScript numbers\<close>

text \<open>
  Every number of the page is an ECMAScript Number, an IEEE 754 binary64 value. A finite
  binary64 value is a rational, so a number is modelled as the rational it denotes, and
  each arithmetic operator computes the exact rational result and rounds it to the nearest
  binary64 value, ties to the even significand (\<open>rnd\<close>).

  NaN, the infinities and the sign of zero are not represented. Nothing the modelled code
  computes reaches them: indices are small naturals, every divisor is a non-zero literal,
  and all results are far below the overflow threshold \<open>2 ^ 1024\<close>, beyond which
  JavaScript answers Infinity and \<open>rnd\<close> is not meant to be used.
\<close>

type_synonym number = rat

definition ilog2 :: "rat \<Rightarrow> int" where
  \<comment> \<open>\<open>\<lfloor>log\<^sub>2 x\<rfloor>\<close> for \<open>x > 0\<close>, from the bit lengths of numerator and denominator\<close>
  "ilog2 x = (let (p, q) = quotient_of x; d = bitlen p - bitlen q
              in if 2 powi d \<le> x then d else d - 1)"

definition round_even :: "rat \<Rightarrow> int" where
  \<comment> \<open>nearest integer, a tie going to the even neighbour\<close>
  "round_even q = (let f = \<lfloor>q\<rfloor>; r = q - of_int f
                   in if r < 1 / 2 then f
                      else if 1 / 2 < r then f + 1
                      else if even f then f else f + 1)"

definition ulp_exp :: "rat \<Rightarrow> int" where
  \<comment> \<open>exponent of the unit in the last place: 53 significant bits, subnormals below \<open>2 ^ - 1022\<close>\<close>
  "ulp_exp x = max (ilog2 \<bar>x\<bar>) (- 1022) - 52"

definition rnd :: "rat \<Rightarrow> number" where
  "rnd x = (if x = 0 then 0
            else let u = 2 powi (ulp_exp x) in of_int (round_even (x / u)) * u)"

definition lit :: "rat \<Rightarrow> number" where
  \<comment> \<open>a decimal literal of the source text denotes the binary64 value nearest to it\<close>
  "lit q = rnd q"

definition fadd :: "number \<Rightarrow> number \<Rightarrow> number" where
  "fadd a b = rnd (a + b)"

definition fsub :: "number \<Rightarrow> number \<Rightarrow> number" where
  "fsub a b = rnd (a - b)"

definition fmul :: "number \<Rightarrow> number \<Rightarrow> number" where
  "fmul a b = rnd (a * b)"

definition fdiv :: "number \<Rightarrow> number \<Rightarrow> number" where
  \<comment> \<open>used with non-zero literal divisors only\<close>
  "fdiv a b = rnd (a / b)"

function isqrt :: "int \<Rightarrow> int" where
  "isqrt n = (if n < 2 then (if n < 0 then 0 else n)
              else let s = 2 * isqrt (n div 4)
                   in if (s + 1) * (s + 1) \<le> n then s + 1 else s)"
  by pat_completeness auto
termination
  by (relation "measure nat") auto

declare isqrt.simps [simp del]

definition Math_sqrt :: "number \<Rightarrow> number" where
  \<comment> \<open>the correctly rounded square root: \<open>n\<close> is the integer part of \<open>sqrt x\<close> in units of \<open>u\<close>,
      and comparing \<open>x / u\<^sup>2\<close> with \<open>(n + 1/2)\<^sup>2\<close> decides the rounding (engines compute
      \<open>Math.sqrt\<close> with the IEEE 754 square root). The code takes roots of petal indices only;
      a negative argument (NaN in JavaScript) is answered by 0\<close>
  "Math_sqrt x = (if x \<le> 0 then 0
     else let u = 2 powi (max (ilog2 x div 2) (- 1022) - 52);
              q = x / (u * u);
              n = isqrt \<lfloor>q\<rfloor>;
              h = (of_int n + 1 / 2) * (of_int n + 1 / 2);
              m = (if q < h then n else if h < q then n + 1
                   else if even n then n else n + 1)
          in of_int m * u)"

definition Math_floor :: "number \<Rightarrow> number" where
  "Math_floor x = of_int \<lfloor>x\<rfloor>"

definition Math_min :: "number \<Rightarrow> number \<Rightarrow> number" where
  "Math_min a b = min a b"

definition Math_max :: "number \<Rightarrow> number \<Rightarrow> number" where
  "Math_max a b = max a b"

definition at_index :: "'a list \<Rightarrow> number \<Rightarrow> 'a option" where
  \<comment> \<open>\<open>xs[k]\<close>: the element when \<open>k\<close> is an integer inside the array, \<open>undefined\<close> otherwise\<close>
  "at_index xs k =
     (if k = of_int \<lfloor>k\<rfloor> \<and> 0 \<le> k \<and> k < of_nat (length xs)
      then Some (xs ! nat \<lfloor>k\<rfloor>) else None)"


section \<open>Rose generator\<close>

definition GOLDEN_ANGLE :: number where
  "GOLDEN_ANGLE = lit (137508 / 1000)"

definition NUM_PETALS :: nat where
  "NUM_PETALS = 24"

definition ROSE_COLORS :: "string list" where
  "ROSE_COLORS =
     [''#6a1530'', ''#7a1e3a'', ''#8e2845'', ''#a83458'', ''#c04668'',
      ''#d46080'', ''#e07898'', ''#ec98b0'', ''#f4b0c4'']"

text \<open>The timing of a \<open>transition\<close> prop; the easing curve is not modelled.\<close>

record transition =
  t_duration :: number
  t_delay :: number

text \<open>
  One petal of a large rose. The petal is also translated by
  \<open>(Math.cos(rad) * dist, Math.sin(rad) * dist)\<close>; ECMAScript leaves \<open>Math.cos\<close> and
  \<open>Math.sin\<close> implementation-approximated, so the translation is not part of the record.
  The \<open>size\<close> prop of a rose scales the enclosing element only and does not enter the petals.
\<close>

record petal =
  p_angle :: number
  p_dist :: number
  p_petalScale :: number
  p_ci :: number
  p_rotate :: number
  p_fill :: "string option"
  p_transition :: transition

definition SvgRose_petal :: "number \<Rightarrow> nat \<Rightarrow> petal" where
  \<comment> \<open>the callback of \<open>Array.from\<close> in \<open>SvgRose\<close> (first page version)\<close>
  "SvgRose_petal delay i =
     (let angle = fmul (of_nat i) GOLDEN_ANGLE;
          dist = fmul (Math_sqrt (of_nat i)) (lit (55 / 10));
          petalScale = fadd (lit (35 / 100)) (fmul (fdiv (of_nat i) (of_nat NUM_PETALS)) (lit (75 / 100)));
          ci = Math_min
                 (Math_floor (fmul (fdiv (of_nat i) (of_nat NUM_PETALS)) (of_nat (length ROSE_COLORS))))
                 (fsub (of_nat (length ROSE_COLORS)) 1)
      in \<lparr>p_angle = angle, p_dist = dist, p_petalScale = petalScale, p_ci = ci,
          p_rotate = fadd angle 90, p_fill = at_index ROSE_COLORS ci,
          p_transition = \<lparr>t_duration = lit (55 / 100),
                          t_delay = fadd delay (fmul (of_nat i) (lit (4 / 100)))\<rparr>\<rparr>)"

definition SvgRose :: "number \<Rightarrow> petal list" where
  "SvgRose delay = map (SvgRose_petal delay) [0..<NUM_PETALS]"

definition Rose_petal :: "number \<Rightarrow> nat \<Rightarrow> petal" where
  \<comment> \<open>the callback of \<open>Array.from\<close> in \<open>Rose\<close> (second page version)\<close>
  "Rose_petal delay i =
     (let angle = fmul (of_nat i) GOLDEN_ANGLE;
          dist = fmul (Math_sqrt (of_nat i)) (lit (55 / 10));
          petalScale = fadd (lit (35 / 100)) (fmul (fdiv (of_nat i) (of_nat NUM_PETALS)) (lit (75 / 100)));
          ci = Math_min
                 (Math_floor (fmul (fdiv (of_nat i) (of_nat NUM_PETALS)) (of_nat (length ROSE_COLORS))))
                 (fsub (of_nat (length ROSE_COLORS)) 1)
      in \<lparr>p_angle = angle, p_dist = dist, p_petalScale = petalScale, p_ci = ci,
          p_rotate = fadd angle 90, p_fill = at_index ROSE_COLORS ci,
          p_transition = \<lparr>t_duration = lit (55 / 100),
                          t_delay = fadd delay (fmul (of_nat i) (lit (4 / 100)))\<rparr>\<rparr>)"

definition Rose :: "number \<Rightarrow> petal list" where
  "Rose delay = map (Rose_petal delay) [0..<NUM_PETALS]"

definition Rose_wrapper :: "number \<Rightarrow> transition" where
  \<comment> \<open>the \<open>motion.div\<close> around the petals of \<open>Rose\<close>\<close>
  "Rose_wrapper delay = \<lparr>t_duration = lit (5 / 10), t_delay = delay\<rparr>"

text \<open>The small icon has the same text in both page versions.\<close>

record icon_petal =
  i_a :: number
  i_d :: number
  i_s :: number
  i_ci :: number
  i_rotate :: number
  i_scale :: number
  i_fill :: "string option"

definition SmallRoseIcon_petal :: "nat \<Rightarrow> icon_petal" where
  "SmallRoseIcon_petal i =
     (let a = fmul (of_nat i) GOLDEN_ANGLE;
          d = fmul (Math_sqrt (of_nat i)) 4;
          s = fadd (lit (4 / 10)) (fmul (fdiv (of_nat i) 12) (lit (6 / 10)));
          ci = Math_min
                 (Math_floor (fmul (fdiv (of_nat i) 12) (of_nat (length ROSE_COLORS))))
                 (fsub (of_nat (length ROSE_COLORS)) 1)
      in \<lparr>i_a = a, i_d = d, i_s = s, i_ci = ci, i_rotate = fadd a 90,
          i_scale = fmul s (lit (45 / 100)), i_fill = at_index ROSE_COLORS ci\<rparr>)"

definition SmallRoseIcon :: "icon_petal list" where
  "SmallRoseIcon = map SmallRoseIcon_petal [0..<12]"


section \<open>Rose placement\<close>




definition baseDelay :: number where
  "baseDelay = lit (22 / 10)"

definition RoseCluster_roses :: "(number \<times> number) list" where
  \<comment> \<open>\<open>(delay, size)\<close> of the four \<open>Rose\<close> elements of a cluster, in document order\<close>
  "RoseCluster_roses =
     [(fadd baseDelay (lit (1 / 10)), lit (12 / 10)),
      (fadd baseDelay (lit (3 / 10)), lit (9 / 10)),
      (fadd baseDelay (lit (4 / 10)), lit (65 / 100)),
      (baseDelay, lit (4 / 10))]"


section \<open>Hero timeline\<close>

text \<open>
  The \<open>transition\<close> props of the hero section of the second page version. The animation
  runtime is a library outside the repository; following section 4.3 of the specification,
  an entry plays over the window from \<open>delay\<close> to \<open>delay + duration\<close>.
\<close>

definition title_strokeDashoffset :: transition where
  "title_strokeDashoffset = \<lparr>t_duration = 2, t_delay = lit (3 / 10)\<rparr>"

definition title_fillOpacity :: transition where
  "title_fillOpacity = \<lparr>t_duration = lit (8 / 10), t_delay = lit (18 / 10)\<rparr>"

definition separator_1 :: transition where
  "separator_1 = \<lparr>t_duration = lit (8 / 10), t_delay = lit (23 / 10)\<rparr>"

definition location_text :: transition where
  "location_text = \<lparr>t_duration = lit (8 / 10), t_delay = lit (25 / 10)\<rparr>"

definition separator_2 :: transition where
  "separator_2 = \<lparr>t_duration = lit (8 / 10), t_delay = lit (28 / 10)\<rparr>"

definition date_text :: transition where
  "date_text = \<lparr>t_duration = 1, t_delay = lit (30 / 10)\<rparr>"

definition window :: "transition \<Rightarrow> number \<times> number" where
  \<comment> \<open>Modelled from the spec: the animation runtime, a library that is not part of the
      repository, plays an entry from \<open>delay\<close> to \<open>delay + duration\<close>\<close>
  "window t = (t_delay t, fadd (t_delay t) (t_duration t))"


section \<open>RSVP form\<close>

text \<open>
  \<open>Home\<close> holds one piece of component state, the guest count. A handler returns the new
  state together with the calls it makes on the outside world; the only such call anywhere
  in the component is \<open>e.preventDefault()\<close>.
\<close>

record home_state =
  guests :: number

datatype event = ClickDecrement | ClickIncrement | Submit

datatype effect = PreventDefault | NetworkCall string | Persist string

definition initial_state :: home_state where
  "initial_state = \<lparr>guests = 2\<rparr>"

definition decrement :: "number \<Rightarrow> number" where
  "decrement g = Math_max 1 (fsub g 1)"

definition increment :: "number \<Rightarrow> number" where
  "increment g = Math_min 10 (fadd g 1)"

fun handle :: "event \<Rightarrow> home_state \<Rightarrow> home_state \<times> effect list" where
  "handle ClickDecrement s = (s\<lparr>guests := decrement (guests s)\<rparr>, [])"
| "handle ClickIncrement s = (s\<lparr>guests := increment (guests s)\<rparr>, [])"
| "handle Submit s = (s, [PreventDefault])"

fun run :: "event list \<Rightarrow> home_state \<Rightarrow> home_state \<times> effect list" where
  "run [] s = (s, [])"
| "run (e # es) s =
     (let (s', out) = handle e s; (s'', out') = run es s' in (s'', out @ out'))"


section \<open>The number model on known values\<close>

lemma lit_one_tenth: "lit (1 / 10) = 3602879701896397 / 2 ^ 55"
  by code_simp

lemma one_tenth_plus_two_tenths:
  "fadd (lit (1 / 10)) (lit (2 / 10)) = 1351079888211149 / 2 ^ 52"
  by code_simp

lemma sqrt_two: "Math_sqrt 2 = 6369051672525773 / 2 ^ 52"
  by code_simp

lemma sqrt_five: "Math_sqrt 5 = 5035177455121576 / 2 ^ 51"
  by code_simp

lemma sqrt_squares: "Math_sqrt 0 = 0 \<and> Math_sqrt 1 = 1 \<and> Math_sqrt 4 = 2 \<and> Math_sqrt 9 = 3"
  by code_simp


section \<open>Properties of the number model\<close>

text \<open>
  \<open>ilog2 x\<close> brackets a positive \<open>x\<close> between two consecutive powers of two. Hence \<open>rnd x\<close>
  is an integer multiple \<open>m * 2 ^ e\<close> with \<open>\<bar>m\<bar> \<le> 2 ^ 53\<close> and \<open>e \<ge> - 1074\<close>, at most half a
  unit in the last place away from \<open>x\<close>; with the tie rule of \<open>round_even\<close> this is the
  binary64 value nearest to \<open>x\<close>. The bound on the error is also what keeps two sums apart
  after rounding.
\<close>

lemma ilog2_le:
  assumes "0 < x"
  shows "2 powi (ilog2 x) \<le> x"
proof -
  obtain p q where pq: "quotient_of x = (p, q)" by (cases "quotient_of x")
  have q: "0 < q" by (rule quotient_of_denom_pos [OF pq])
  have x: "x = of_int p / of_int q" by (rule quotient_of_div [OF pq])
  have p: "0 < p"
    using assms q unfolding x by (simp add: zero_less_divide_iff)
  define d where "d = bitlen p - bitlen q"
  have il: "ilog2 x = (if 2 powi d \<le> x then d else d - 1)"
    by (simp add: ilog2_def pq d_def Let_def)
  show ?thesis
  proof (cases "2 powi d \<le> x")
    case True
    then show ?thesis by (simp add: il)
  next
    case False
    have bp: "1 \<le> bitlen p" and bq: "1 \<le> bitlen q"
      using p q bitlen_eq_zero_iff [of p] bitlen_eq_zero_iff [of q] bitlen_nonneg [of p] bitlen_nonneg [of q]
      by linarith+
    have lo: "(2::rat) powi (bitlen p - 1) \<le> of_int p"
    proof -
      have "(2::int) ^ nat (bitlen p - 1) \<le> p" using bitlen_bounds [OF p] by simp
      then have "(of_int ((2::int) ^ nat (bitlen p - 1)) :: rat) \<le> of_int p"
        by (simp only: of_int_le_iff)
      then show ?thesis using bp by (simp add: power_int_def)
    qed
    have hi: "of_int q \<le> (2::rat) powi (bitlen q)"
    proof -
      have "q < (2::int) ^ nat (bitlen q)" using bitlen_bounds [OF q] by simp
      then have "(of_int q :: rat) \<le> of_int ((2::int) ^ nat (bitlen q))"
        by (simp only: of_int_le_iff)
      then show ?thesis using bq by (simp add: power_int_def)
    qed
    have "(2::rat) powi (d - 1) = 2 powi (bitlen p - 1) / 2 powi (bitlen q)"
      by (simp add: d_def power_int_diff)
    also have "\<dots> \<le> of_int p / 2 powi (bitlen q)"
      using lo by (simp add: divide_right_mono)
    also have "\<dots> \<le> of_int p / of_int q"
      using hi p q by (intro divide_left_mono) simp_all
    also have "\<dots> = x" by (simp add: x)
    finally show ?thesis using False by (simp add: il)
  qed
qed

lemma ilog2_less:
  assumes "0 < x"
  shows "x < 2 powi (ilog2 x + 1)"
proof -
  obtain p q where pq: "quotient_of x = (p, q)" by (cases "quotient_of x")
  have q: "0 < q" by (rule quotient_of_denom_pos [OF pq])
  have x: "x = of_int p / of_int q" by (rule quotient_of_div [OF pq])
  have p: "0 < p"
    using assms q unfolding x by (simp add: zero_less_divide_iff)
  define d where "d = bitlen p - bitlen q"
  have il: "ilog2 x = (if 2 powi d \<le> x then d else d - 1)"
    by (simp add: ilog2_def pq d_def Let_def)
  show ?thesis
  proof (cases "2 powi d \<le> x")
    case False
    then show ?thesis by (simp add: il)
  next
    case True
    have bp: "1 \<le> bitlen p" and bq: "1 \<le> bitlen q"
      using p q bitlen_eq_zero_iff [of p] bitlen_eq_zero_iff [of q] bitlen_nonneg [of p] bitlen_nonneg [of q]
      by linarith+
    have hi: "of_int p < (2::rat) powi (bitlen p)"
    proof -
      have "p < (2::int) ^ nat (bitlen p)" using bitlen_bounds [OF p] by simp
      then have "(of_int p :: rat) < of_int ((2::int) ^ nat (bitlen p))"
        by (simp only: of_int_less_iff)
      then show ?thesis using bp by (simp add: power_int_def)
    qed
    have lo: "(2::rat) powi (bitlen q - 1) \<le> of_int q"
    proof -
      have "(2::int) ^ nat (bitlen q - 1) \<le> q" using bitlen_bounds [OF q] by simp
      then have "(of_int ((2::int) ^ nat (bitlen q - 1)) :: rat) \<le> of_int q"
        by (simp only: of_int_le_iff)
      then show ?thesis using bq by (simp add: power_int_def)
    qed
    have "x = of_int p / of_int q" by (rule x)
    also have "\<dots> < 2 powi (bitlen p) / of_int q"
      using hi q by (simp add: divide_strict_right_mono)
    also have "\<dots> \<le> 2 powi (bitlen p) / 2 powi (bitlen q - 1)"
      using lo q by (intro divide_left_mono) simp_all
    also have "\<dots> = 2 powi (d + 1)"
      by (simp add: d_def power_int_diff power_int_add)
    finally show ?thesis using True by (simp add: il)
  qed
qed


lemma round_even_cases: "round_even q = \<lfloor>q\<rfloor> \<or> round_even q = \<lfloor>q\<rfloor> + 1"
  by (simp add: round_even_def Let_def)


lemma round_even_bounded:
  assumes "\<bar>q\<bar> < of_int N"
  shows "\<bar>round_even q\<bar> \<le> N"
proof -
  have "\<lfloor>q\<rfloor> < N" using assms by (simp add: floor_less_iff abs_less_iff)
  moreover have "- N \<le> \<lfloor>q\<rfloor>" using assms by (simp add: le_floor_iff abs_less_iff)
  ultimately show ?thesis using round_even_cases [of q] by auto
qed


lemma rnd_representable:
  "\<exists>m. rnd x = of_int m * 2 powi (ulp_exp x) \<and> \<bar>m\<bar> \<le> 2 ^ 53 \<and> - 1074 \<le> ulp_exp x"
proof (cases "x = 0")
  case True
  have "rnd x = of_int 0 * 2 powi (ulp_exp x) \<and> \<bar>0 :: int\<bar> \<le> 2 ^ 53 \<and> - 1074 \<le> ulp_exp x"
    using True by (simp add: rnd_def ulp_exp_def)
  then show ?thesis by blast
next
  case False
  define u :: rat where "u = 2 powi (ulp_exp x)"
  have u: "0 < u" by (simp add: u_def)
  have r: "rnd x = of_int (round_even (x / u)) * u"
    using False by (simp add: rnd_def Let_def u_def)
  have "\<bar>x\<bar> < 2 powi (ilog2 \<bar>x\<bar> + 1)"
    using False by (intro ilog2_less) simp
  also have "\<dots> \<le> 2 powi (ulp_exp x + 53)"
    by (intro power_int_increasing) (simp_all add: ulp_exp_def)
  also have "\<dots> = 2 ^ 53 * u"
    by (simp add: u_def power_int_add)
  finally have "\<bar>x / u\<bar> < of_int (2 ^ 53)"
    using u by (simp add: pos_divide_less_eq)
  then have "\<bar>round_even (x / u)\<bar> \<le> 2 ^ 53"
    by (rule round_even_bounded)
  moreover have "- 1074 \<le> ulp_exp x" by (simp add: ulp_exp_def)
  ultimately show ?thesis using r unfolding u_def by blast
qed



text \<open>
  \<open>isqrt\<close> is the integer square root, and \<open>Math_sqrt x\<close> is the multiple of the unit in the
  last place \<open>u\<close> nearest to the square root of \<open>x\<close>: the root lies between
  \<open>Math_sqrt x - u / 2\<close> and \<open>Math_sqrt x + u / 2\<close>.
\<close>

lemma isqrt_bounds:
  "0 \<le> n \<Longrightarrow> 0 \<le> isqrt n \<and> isqrt n * isqrt n \<le> n \<and> n < (isqrt n + 1) * (isqrt n + 1)"
proof (induction n rule: isqrt.induct)
  case (1 n)
  show ?case
  proof (cases "n < 2")
    case True
    with "1.prems" have "n = 0 \<or> n = 1" by linarith
    moreover have "isqrt n = n" using True "1.prems" by (subst isqrt.simps) simp
    ultimately show ?thesis by auto
  next
    case False
    define r where "r = isqrt (n div 4)"
    have ih: "0 \<le> r \<and> r * r \<le> n div 4 \<and> n div 4 < (r + 1) * (r + 1)"
      using "1.IH" [OF False] "1.prems" False by (simp add: r_def)
    have s: "isqrt n = (if (2 * r + 1) * (2 * r + 1) \<le> n then 2 * r + 1 else 2 * r)"
      using False by (subst isqrt.simps) (simp add: Let_def r_def)
    have lo: "4 * (r * r) \<le> n" using ih by linarith
    have "n div 4 + 1 \<le> (r + 1) * (r + 1)" using ih by linarith
    then have hi: "n < 4 * ((r + 1) * (r + 1))" by linarith
    show ?thesis
    proof (cases "(2 * r + 1) * (2 * r + 1) \<le> n")
      case True
      then show ?thesis using ih hi by (simp add: s algebra_simps)
    next
      case False
      then show ?thesis using ih lo by (simp add: s algebra_simps)
    qed
  qed
qed

lemma Math_sqrt_bracket:
  assumes "0 < x"
  defines "u \<equiv> 2 powi (max (ilog2 x div 2) (- 1022) - 52)"
  assumes "u * u \<le> x"
  shows "u / 2 \<le> Math_sqrt x
       \<and> (Math_sqrt x - u / 2) * (Math_sqrt x - u / 2) \<le> x
       \<and> x \<le> (Math_sqrt x + u / 2) * (Math_sqrt x + u / 2)"
proof -
  define q where "q = x / (u * u)"
  define n where "n = isqrt \<lfloor>q\<rfloor>"
  define h :: rat where "h = (of_int n + 1 / 2) * (of_int n + 1 / 2)"
  define m where "m = (if q < h then n else if h < q then n + 1 else if even n then n else n + 1)"
  have u: "0 < u" by (simp add: u_def)
  have q1: "1 \<le> q" using assms(3) u by (simp add: q_def pos_le_divide_eq)
  then have fq: "1 \<le> \<lfloor>q\<rfloor>" by (simp add: le_floor_iff)
  have b: "0 \<le> n \<and> n * n \<le> \<lfloor>q\<rfloor> \<and> \<lfloor>q\<rfloor> < (n + 1) * (n + 1)"
    unfolding n_def using fq by (intro isqrt_bounds) simp
  have n1: "1 \<le> n"
  proof (rule ccontr)
    assume "\<not> 1 \<le> n"
    with b have "n = 0" by simp
    with b fq show False by simp
  qed
  have lo: "of_int (n * n) \<le> q"
  proof -
    have "(of_int (n * n) :: rat) \<le> of_int \<lfloor>q\<rfloor>" using b by (simp only: of_int_le_iff)
    also have "\<dots> \<le> q" by simp
    finally show ?thesis .
  qed
  have hi: "q < of_int ((n + 1) * (n + 1))"
  proof -
    have "\<lfloor>q\<rfloor> + 1 \<le> (n + 1) * (n + 1)" using b by simp
    then have "(of_int (\<lfloor>q\<rfloor> + 1) :: rat) \<le> of_int ((n + 1) * (n + 1))" by (simp only: of_int_le_iff)
    moreover have "q < of_int (\<lfloor>q\<rfloor> + 1)" by simp linarith
    ultimately show ?thesis by linarith
  qed
  have nx: "\<not> x \<le> 0" using assms(1) by simp
  have r: "Math_sqrt x = of_int m * u"
    unfolding Math_sqrt_def Let_def m_def h_def n_def q_def u_def if_not_P [OF nx]
    by (rule refl)
  have mn: "m = n \<or> m = n + 1" by (simp add: m_def)
  have m1: "1 \<le> m" using mn n1 by auto
  have nr: "(1::rat) \<le> of_int n" using n1 by simp
  have bracket: "(of_int m - 1 / 2) * (of_int m - 1 / 2) \<le> q \<and> q \<le> (of_int m + 1 / 2) * (of_int m + 1 / 2)"
  proof (cases "m = n")
    case True
    then have "q \<le> h" by (auto simp: m_def split: if_splits)
    moreover have "(of_int n - 1 / 2) * (of_int n - 1 / 2) \<le> (of_int (n * n) :: rat)"
      using nr by (simp add: algebra_simps)
    ultimately show ?thesis using lo True by (simp add: h_def)
  next
    case False
    then have m: "m = n + 1" using mn by simp
    then have "h \<le> q" by (auto simp: m_def split: if_splits)
    moreover have "(of_int ((n + 1) * (n + 1)) :: rat) \<le> (of_int (n + 1) + 1 / 2) * (of_int (n + 1) + 1 / 2)"
      using nr by (simp add: algebra_simps)
    ultimately show ?thesis using hi m by (simp add: h_def algebra_simps)
  qed
  have x: "x = q * (u * u)" using u by (simp add: q_def)
  have "(Math_sqrt x - u / 2) * (Math_sqrt x - u / 2) = ((of_int m - 1 / 2) * (of_int m - 1 / 2)) * (u * u)"
    by (simp add: r algebra_simps)
  also have "\<dots> \<le> q * (u * u)"
    using bracket u by (intro mult_right_mono) simp_all
  finally have l: "(Math_sqrt x - u / 2) * (Math_sqrt x - u / 2) \<le> x" using x by simp
  have "x = q * (u * u)" by (rule x)
  also have "\<dots> \<le> ((of_int m + 1 / 2) * (of_int m + 1 / 2)) * (u * u)"
    using bracket u by (intro mult_right_mono) simp_all
  also have "\<dots> = (Math_sqrt x + u / 2) * (Math_sqrt x + u / 2)"
    by (simp add: r algebra_simps)
  finally have h': "x \<le> (Math_sqrt x + u / 2) * (Math_sqrt x + u / 2)" .
  have "u / 2 \<le> of_int m * u"
    using m1 u by (simp add: field_simps)
  with l h' r show ?thesis by simp
qed

lemma Math_sqrt_nearest:
  assumes "1 \<le> x"
  defines "u \<equiv> 2 powi (ilog2 x div 2 - 52)"
  shows "u / 2 \<le> Math_sqrt x
       \<and> (Math_sqrt x - u / 2) * (Math_sqrt x - u / 2) \<le> x
       \<and> x \<le> (Math_sqrt x + u / 2) * (Math_sqrt x + u / 2)"
proof -
  have x: "0 < x" using assms(1) by simp
  have il: "0 \<le> ilog2 x"
  proof (rule ccontr)
    assume "\<not> 0 \<le> ilog2 x"
    then have "ilog2 x + 1 \<le> 0" by simp
    then have "(2::rat) powi (ilog2 x + 1) \<le> 2 powi 0"
      by (intro power_int_increasing) simp_all
    with ilog2_less [OF x] assms(1) show False by simp
  qed
  then have k: "0 \<le> ilog2 x div 2" by simp
  then have m: "max (ilog2 x div 2) (- 1022) = ilog2 x div 2" by simp
  have "u * u = 2 powi (2 * (ilog2 x div 2) - 104)"
    by (simp add: u_def power_int_add [symmetric])
  also have "\<dots> \<le> 2 powi (ilog2 x)"
    by (intro power_int_increasing) simp_all
  also have "\<dots> \<le> x" by (rule ilog2_le [OF x])
  finally have uu: "u * u \<le> x" .
  show ?thesis
    using Math_sqrt_bracket [OF x] uu unfolding m u_def by blast
qed


section \<open>Guest counter and form submission\<close>

text \<open>
  On the ten integer guest counts the rounded subtraction and addition are exact, so a
  click computes \<open>max 1 (g - 1)\<close> or \<open>min 10 (g + 1)\<close> over the rationals.
\<close>

lemma guest_steps:
  "list_all (\<lambda>g. decrement g = max 1 (g - 1) \<and> increment g = min 10 (g + 1))
     (map of_int [1..10])"
  by code_simp

lemma guest_step_exact:
  assumes "g \<in> of_int ` {1..10}"
  shows "decrement g = max 1 (g - 1) \<and> increment g = min 10 (g + 1)"
proof -
  from assms have "g \<in> set (map of_int [1..10])" by simp
  with guest_steps show ?thesis
    unfolding list_all_iff by blast
qed

lemma guest_step_range:
  assumes "g \<in> of_int ` {1..10}"
  shows "decrement g \<in> of_int ` {1..10} \<and> increment g \<in> of_int ` {1..10}"
proof -
  from assms obtain k :: int where k: "g = of_int k" "1 \<le> k" "k \<le> 10" by auto
  have d: "decrement g = of_int (max 1 (k - 1))"
    using guest_step_exact [OF assms] k by (simp add: max_def)
  have i: "increment g = of_int (min 10 (k + 1))"
    using guest_step_exact [OF assms] k by (simp add: min_def)
  show ?thesis unfolding d i using k by (auto simp: max_def min_def)
qed

lemma run_guests_range:
  "guests s \<in> of_int ` {1..10} \<Longrightarrow> guests (fst (run es s)) \<in> of_int ` {1..10}"
proof (induction es arbitrary: s)
  case Nil
  then show ?case by simp
next
  case (Cons e es)
  have "guests (fst (handle e s)) \<in> of_int ` {1..10}"
    using guest_step_range [OF Cons.prems] Cons.prems by (cases e) simp_all
  from Cons.IH [OF this] show ?case
    by (simp add: case_prod_unfold Let_def)
qed

text \<open>
  C1. The guest counter starts at 2. After any finite sequence of events the count \<open>g\<close> is
  one of the integers 1 to 10, so it lies in \<open>[1, 10]\<close>; from there a decrement click stores
  \<open>max 1 (g - 1)\<close> and an increment click stores \<open>min 10 (g + 1)\<close>. A decrement at 1 leaves 1 and
  an increment at 10 leaves 10.
\<close>

theorem guest_counter_clamped:
  "guests initial_state = 2
   \<and> (let st = fst (run es initial_state); g = guests st
      in g \<in> of_int ` {1..10} \<and> 1 \<le> g \<and> g \<le> 10
         \<and> guests (fst (handle ClickDecrement st)) = max 1 (g - 1)
         \<and> guests (fst (handle ClickIncrement st)) = min 10 (g + 1))
   \<and> guests (fst (handle ClickDecrement (s\<lparr>guests := 1\<rparr>))) = 1
   \<and> guests (fst (handle ClickIncrement (s\<lparr>guests := 10\<rparr>))) = 10"
proof -
  have init: "guests initial_state \<in> of_int ` {1..10}"
    by (simp add: initial_state_def)
  have r: "guests (fst (run es initial_state)) \<in> of_int ` {1..10}"
    by (rule run_guests_range [OF init])
  then obtain k :: int where k: "guests (fst (run es initial_state)) = of_int k" "1 \<le> k" "k \<le> 10"
    by auto
  have lo: "decrement 1 = 1" and hi: "increment 10 = 10"
    using guest_step_exact [of 1] guest_step_exact [of 10] by auto
  show ?thesis
    using r k lo hi guest_step_exact [OF r] by (simp add: initial_state_def Let_def)
qed

lemma run_effects:
  "snd (run es s) = replicate (count_list es Submit) PreventDefault"
proof (induction es arbitrary: s)
  case Nil
  show ?case by simp
next
  case (Cons e es)
  show ?case
    using Cons.IH [of "fst (handle e s)"] by (cases e) (simp_all add: case_prod_unfold Let_def)
qed

lemma run_without_submit:
  "fst (run (filter (\<lambda>e. e \<noteq> Submit) es) s) = fst (run es s)"
proof (induction es arbitrary: s)
  case Nil
  show ?case by simp
next
  case (Cons e es)
  show ?case
    using Cons.IH [of "fst (handle e s)"] by (cases e) (simp_all add: case_prod_unfold Let_def)
qed

text \<open>
  C5. The submit handler only cancels the default action: it returns the state it was given
  and its single call on the outside world is \<open>preventDefault\<close>. Over any sequence of
  events no handler makes a network call or persists anything, the calls made are one
  \<open>preventDefault\<close> per submission, and the final state (the guest counter included) is the
  one reached with the submissions left out.
\<close>

theorem submit_discarded:
  "handle Submit s = (s, [PreventDefault])
   \<and> fst (handle Submit s) = s
   \<and> guests (fst (handle Submit s)) = guests s
   \<and> NetworkCall url \<notin> set (snd (run es s))
   \<and> Persist item \<notin> set (snd (run es s))
   \<and> snd (run es s) = replicate (count_list es Submit) PreventDefault
   \<and> fst (run (filter (\<lambda>e. e \<noteq> Submit) es) s) = fst (run es s)"
  using run_effects [of es s] run_without_submit [of es s] by simp


section \<open>Rose generator: petal values\<close>

lemma palette_size: "length ROSE_COLORS = 9"
  by (simp add: ROSE_COLORS_def)

lemma nine_minus_one: "fsub 9 1 = 8"
  by code_simp

lemma Rose_petal_fields:
  "p_angle (Rose_petal delay i) = fmul (of_nat i) GOLDEN_ANGLE"
  "p_dist (Rose_petal delay i) = fmul (Math_sqrt (of_nat i)) (lit (55 / 10))"
  "p_petalScale (Rose_petal delay i) =
     fadd (lit (35 / 100)) (fmul (fdiv (of_nat i) 24) (lit (75 / 100)))"
  "p_ci (Rose_petal delay i) = Math_min (Math_floor (fmul (fdiv (of_nat i) 24) 9)) 8"
  "p_rotate (Rose_petal delay i) = fadd (fmul (of_nat i) GOLDEN_ANGLE) 90"
  "p_fill (Rose_petal delay i) = at_index ROSE_COLORS (p_ci (Rose_petal delay i))"
  "t_delay (p_transition (Rose_petal delay i)) = fadd delay (fmul (of_nat i) (lit (4 / 100)))"
  "t_duration (p_transition (Rose_petal delay i)) = lit (55 / 100)"
  by (simp_all add: Rose_petal_def Let_def NUM_PETALS_def palette_size nine_minus_one)

lemma SvgRose_petal_eq: "SvgRose_petal delay i = Rose_petal delay i"
  by (simp add: SvgRose_petal_def Rose_petal_def)

lemma SmallRoseIcon_petal_fields:
  "i_a (SmallRoseIcon_petal i) = fmul (of_nat i) GOLDEN_ANGLE"
  "i_d (SmallRoseIcon_petal i) = fmul (Math_sqrt (of_nat i)) 4"
  "i_s (SmallRoseIcon_petal i) = fadd (lit (4 / 10)) (fmul (fdiv (of_nat i) 12) (lit (6 / 10)))"
  "i_ci (SmallRoseIcon_petal i) = Math_min (Math_floor (fmul (fdiv (of_nat i) 12) 9)) 8"
  "i_rotate (SmallRoseIcon_petal i) = fadd (fmul (of_nat i) GOLDEN_ANGLE) 90"
  "i_scale (SmallRoseIcon_petal i) = fmul (i_s (SmallRoseIcon_petal i)) (lit (45 / 100))"
  "i_fill (SmallRoseIcon_petal i) = at_index ROSE_COLORS (i_ci (SmallRoseIcon_petal i))"
  by (simp_all add: SmallRoseIcon_petal_def Let_def palette_size nine_minus_one)

lemma table_nth:
  assumes "map f [0..<n] = T" and "k < n"
  shows "f k = T ! k"
proof -
  have "map f [0..<n] ! k = f (0 + k)"
    using assms(2) by (intro nth_map_upt) simp
  with assms(1) show ?thesis by simp
qed

lemma at_index_floor:
  assumes "0 \<le> Math_floor x" and "Math_floor x \<le> 8"
  shows "at_index ROSE_COLORS (Math_floor x) = Some (ROSE_COLORS ! nat \<lfloor>x\<rfloor>)"
  using assms by (simp add: at_index_def Math_floor_def palette_size)

subsection \<open>Colour index\<close>

lemma ci_table:
  "map (\<lambda>i. Math_floor (fmul (fdiv (of_nat i) 24) 9)) [0..<24] =
     [0, 0, 0, 1, 1, 1, 2, 2, 3, 3, 3, 4, 4, 4, 5, 5, 6, 6, 6, 7, 7, 7, 8, 8]"
  by code_simp

lemma icon_ci_table:
  "map (\<lambda>i. Math_floor (fmul (fdiv (of_nat i) 12) 9)) [0..<12] =
     [0, 0, 1, 2, 3, 3, 4, 5, 6, 6, 7, 8]"
  by code_simp

lemma ci_bounds:
  assumes "k < 24"
  shows "0 \<le> Math_floor (fmul (fdiv (of_nat k) 24) 9) \<and> Math_floor (fmul (fdiv (of_nat k) 24) 9) \<le> 8"
proof -
  let ?T = "[0, 0, 0, 1, 1, 1, 2, 2, 3, 3, 3, 4, 4, 4, 5, 5, 6, 6, 6, 7, 7, 7, 8, 8] :: number list"
  have "Math_floor (fmul (fdiv (of_nat k) 24) 9) = ?T ! k"
    by (rule table_nth [OF ci_table assms])
  moreover have "?T ! k \<in> set ?T"
    using assms by (intro nth_mem) simp
  moreover have "\<forall>v \<in> set ?T. 0 \<le> v \<and> v \<le> 8" by simp
  ultimately show ?thesis by metis
qed

lemma ci_mono:
  assumes "i \<le> j" and "j < 24"
  shows "Math_floor (fmul (fdiv (of_nat i) 24) 9) \<le> Math_floor (fmul (fdiv (of_nat j) 24) 9)"
proof -
  let ?T = "[0, 0, 0, 1, 1, 1, 2, 2, 3, 3, 3, 4, 4, 4, 5, 5, 6, 6, 6, 7, 7, 7, 8, 8] :: number list"
  have i: "Math_floor (fmul (fdiv (of_nat i) 24) 9) = ?T ! i"
    using assms by (intro table_nth [OF ci_table]) simp
  have j: "Math_floor (fmul (fdiv (of_nat j) 24) 9) = ?T ! j"
    by (rule table_nth [OF ci_table assms(2)])
  have "sorted ?T" by simp
  then have "?T ! i \<le> ?T ! j"
    using assms by (intro sorted_nth_mono) simp_all
  with i j show ?thesis by simp
qed

lemma icon_ci_bounds:
  assumes "k < 12"
  shows "0 \<le> Math_floor (fmul (fdiv (of_nat k) 12) 9) \<and> Math_floor (fmul (fdiv (of_nat k) 12) 9) \<le> 8"
proof -
  let ?T = "[0, 0, 1, 2, 3, 3, 4, 5, 6, 6, 7, 8] :: number list"
  have "Math_floor (fmul (fdiv (of_nat k) 12) 9) = ?T ! k"
    by (rule table_nth [OF icon_ci_table assms])
  moreover have "?T ! k \<in> set ?T"
    using assms by (intro nth_mem) simp
  moreover have "\<forall>v \<in> set ?T. 0 \<le> v \<and> v \<le> 8" by simp
  ultimately show ?thesis by metis
qed

lemma icon_ci_mono:
  assumes "i \<le> j" and "j < 12"
  shows "Math_floor (fmul (fdiv (of_nat i) 12) 9) \<le> Math_floor (fmul (fdiv (of_nat j) 12) 9)"
proof -
  let ?T = "[0, 0, 1, 2, 3, 3, 4, 5, 6, 6, 7, 8] :: number list"
  have i: "Math_floor (fmul (fdiv (of_nat i) 12) 9) = ?T ! i"
    using assms by (intro table_nth [OF icon_ci_table]) simp
  have j: "Math_floor (fmul (fdiv (of_nat j) 12) 9) = ?T ! j"
    by (rule table_nth [OF icon_ci_table assms(2)])
  have "sorted ?T" by simp
  then have "?T ! i \<le> ?T ! j"
    using assms by (intro sorted_nth_mono) simp_all
  with i j show ?thesis by simp
qed

text \<open>
  C3. For petal indices \<open>i \<le> j\<close> below the petal count (24 for both large roses, 12 for the
  small icon), the colour index \<open>min (floor ((i / petalCount) * 9)) 8\<close> of \<open>i\<close> is at most
  that of \<open>j\<close>, it is below the palette size 9, and the palette lookup finds a colour.
\<close>

theorem color_index_monotone_in_palette:
  assumes "i \<le> j"
  shows "(j < NUM_PETALS \<longrightarrow>
            p_ci (SvgRose_petal delay j) = Math_min (Math_floor (fmul (fdiv (of_nat j) 24) 9)) 8
          \<and> p_ci (Rose_petal delay j) = Math_min (Math_floor (fmul (fdiv (of_nat j) 24) 9)) 8
          \<and> p_ci (SvgRose_petal delay i) \<le> p_ci (SvgRose_petal delay j)
          \<and> p_ci (Rose_petal delay i) \<le> p_ci (Rose_petal delay j)
          \<and> p_ci (Rose_petal delay j) < of_nat (length ROSE_COLORS)
          \<and> p_ci (SvgRose_petal delay j) < of_nat (length ROSE_COLORS)
          \<and> p_fill (Rose_petal delay j) \<noteq> None
          \<and> p_fill (SvgRose_petal delay j) \<noteq> None)
       \<and> (j < 12 \<longrightarrow>
            i_ci (SmallRoseIcon_petal j) = Math_min (Math_floor (fmul (fdiv (of_nat j) 12) 9)) 8
          \<and> i_ci (SmallRoseIcon_petal i) \<le> i_ci (SmallRoseIcon_petal j)
          \<and> i_ci (SmallRoseIcon_petal j) < of_nat (length ROSE_COLORS)
          \<and> i_fill (SmallRoseIcon_petal j) \<noteq> None)"
proof (intro conjI impI)
  assume j: "j < NUM_PETALS"
  then have j24: "j < 24" by (simp add: NUM_PETALS_def)
  note b = ci_bounds [OF j24] and m = ci_mono [OF assms j24]
  show "p_ci (Rose_petal delay j) = Math_min (Math_floor (fmul (fdiv (of_nat j) 24) 9)) 8"
    by (simp add: Rose_petal_fields)
  then show "p_ci (SvgRose_petal delay j) = Math_min (Math_floor (fmul (fdiv (of_nat j) 24) 9)) 8"
    by (simp add: SvgRose_petal_eq)
  show "p_ci (Rose_petal delay i) \<le> p_ci (Rose_petal delay j)"
    using m by (simp add: Rose_petal_fields Math_min_def)
  then show "p_ci (SvgRose_petal delay i) \<le> p_ci (SvgRose_petal delay j)"
    by (simp add: SvgRose_petal_eq)
  show "p_ci (Rose_petal delay j) < of_nat (length ROSE_COLORS)"
    using b by (simp add: Rose_petal_fields Math_min_def palette_size)
  then show "p_ci (SvgRose_petal delay j) < of_nat (length ROSE_COLORS)"
    by (simp add: SvgRose_petal_eq)
  show "p_fill (Rose_petal delay j) \<noteq> None"
    using b at_index_floor [OF conjunct1 [OF b] conjunct2 [OF b]]
    by (simp add: Rose_petal_fields Math_min_def)
  then show "p_fill (SvgRose_petal delay j) \<noteq> None"
    by (simp add: SvgRose_petal_eq)
next
  assume j12: "j < 12"
  note b = icon_ci_bounds [OF j12] and m = icon_ci_mono [OF assms j12]
  show "i_ci (SmallRoseIcon_petal j) = Math_min (Math_floor (fmul (fdiv (of_nat j) 12) 9)) 8"
    by (simp add: SmallRoseIcon_petal_fields)
  show "i_ci (SmallRoseIcon_petal i) \<le> i_ci (SmallRoseIcon_petal j)"
    using m by (simp add: SmallRoseIcon_petal_fields Math_min_def)
  show "i_ci (SmallRoseIcon_petal j) < of_nat (length ROSE_COLORS)"
    using b by (simp add: SmallRoseIcon_petal_fields Math_min_def palette_size)
  show "i_fill (SmallRoseIcon_petal j) \<noteq> None"
    using b at_index_floor [OF conjunct1 [OF b] conjunct2 [OF b]]
    by (simp add: SmallRoseIcon_petal_fields Math_min_def)
qed

text \<open>The theorem at indices 3 and 11.\<close>

theorem color_index_monotone_in_palette_witness:
  "(3 :: nat) \<le> 11 \<and> 11 < NUM_PETALS \<and> (11 :: nat) < 12
   \<and> p_ci (SvgRose_petal 0 3) \<le> p_ci (SvgRose_petal 0 11)
   \<and> p_ci (Rose_petal 0 3) \<le> p_ci (Rose_petal 0 11)
   \<and> p_ci (Rose_petal 0 11) < of_nat (length ROSE_COLORS)
   \<and> p_fill (Rose_petal 0 11) \<noteq> None
   \<and> i_ci (SmallRoseIcon_petal 3) \<le> i_ci (SmallRoseIcon_petal 11)
   \<and> i_ci (SmallRoseIcon_petal 11) < of_nat (length ROSE_COLORS)
   \<and> i_fill (SmallRoseIcon_petal 11) \<noteq> None"
  using color_index_monotone_in_palette [of 3 11 0] by (simp add: NUM_PETALS_def)

text \<open>
  C10. The clamp of the colour index is never exercised: for every index below 24 (large
  roses) and below 12 (small icon) the floor is at most 8 already, so the colour index is
  the floor itself, and looking the floor up in the palette finds a colour.
\<close>

theorem color_index_clamp_idle:
  "(i < NUM_PETALS \<longrightarrow>
      Math_floor (fmul (fdiv (of_nat i) (of_nat NUM_PETALS)) 9) \<le> 8
    \<and> p_ci (SvgRose_petal delay i) = Math_floor (fmul (fdiv (of_nat i) (of_nat NUM_PETALS)) 9)
    \<and> p_ci (Rose_petal delay i) = Math_floor (fmul (fdiv (of_nat i) (of_nat NUM_PETALS)) 9)
    \<and> at_index ROSE_COLORS (Math_floor (fmul (fdiv (of_nat i) (of_nat NUM_PETALS)) 9)) \<noteq> None)
   \<and> (i < 12 \<longrightarrow>
      Math_floor (fmul (fdiv (of_nat i) 12) 9) \<le> 8
    \<and> i_ci (SmallRoseIcon_petal i) = Math_floor (fmul (fdiv (of_nat i) 12) 9)
    \<and> at_index ROSE_COLORS (Math_floor (fmul (fdiv (of_nat i) 12) 9)) \<noteq> None)"
proof (intro conjI impI)
  assume "i < NUM_PETALS"
  then have i24: "i < 24" by (simp add: NUM_PETALS_def)
  note b = ci_bounds [OF i24]
  show "Math_floor (fmul (fdiv (of_nat i) (of_nat NUM_PETALS)) 9) \<le> 8"
    using b by (simp add: NUM_PETALS_def)
  show "p_ci (Rose_petal delay i) = Math_floor (fmul (fdiv (of_nat i) (of_nat NUM_PETALS)) 9)"
    using b by (simp add: Rose_petal_fields Math_min_def NUM_PETALS_def)
  then show "p_ci (SvgRose_petal delay i) = Math_floor (fmul (fdiv (of_nat i) (of_nat NUM_PETALS)) 9)"
    by (simp add: SvgRose_petal_eq)
  show "at_index ROSE_COLORS (Math_floor (fmul (fdiv (of_nat i) (of_nat NUM_PETALS)) 9)) \<noteq> None"
    using at_index_floor [OF conjunct1 [OF b] conjunct2 [OF b]] by (simp add: NUM_PETALS_def)
next
  assume i12: "i < 12"
  note b = icon_ci_bounds [OF i12]
  show "Math_floor (fmul (fdiv (of_nat i) 12) 9) \<le> 8"
    using b by simp
  show "i_ci (SmallRoseIcon_petal i) = Math_floor (fmul (fdiv (of_nat i) 12) 9)"
    using b by (simp add: SmallRoseIcon_petal_fields Math_min_def)
  show "at_index ROSE_COLORS (Math_floor (fmul (fdiv (of_nat i) 12) 9)) \<noteq> None"
    using at_index_floor [OF conjunct1 [OF b] conjunct2 [OF b]] by simp
qed

text \<open>The theorem at index 11, for the large roses and for the small icon.\<close>

theorem color_index_clamp_idle_witness:
  "(11 :: nat) < NUM_PETALS \<and> (11 :: nat) < 12
   \<and> Math_floor (fmul (fdiv (of_nat 11) (of_nat NUM_PETALS)) 9) \<le> 8
   \<and> p_ci (Rose_petal 0 11) = Math_floor (fmul (fdiv (of_nat 11) (of_nat NUM_PETALS)) 9)
   \<and> Math_floor (fmul (fdiv (of_nat 11) 12) 9) \<le> 8
   \<and> i_ci (SmallRoseIcon_petal 11) = Math_floor (fmul (fdiv (of_nat 11) 12) 9)"
  using color_index_clamp_idle [of 11 0] by (simp add: NUM_PETALS_def)

subsection \<open>The petal at index 5\<close>

lemma golden_angle_value:
  "GOLDEN_ANGLE = 4838132637191111 / 2 ^ 45 \<and> 137508 / 1000 < GOLDEN_ANGLE"
  by code_simp

lemma angle_5: "fmul 5 GOLDEN_ANGLE = 6047665796488889 / 2 ^ 43"
  by code_simp

lemma lit_687_54: "lit (68754 / 100) = 6047665796488889 / 2 ^ 43 - 1 / 2 ^ 43"
  by code_simp

lemma dist_5: "fmul (Math_sqrt 5) (lit (55 / 10)) = 6923369000792167 / 2 ^ 49"
  by code_simp

lemma dist_5_near: "\<bar>(6923369000792167 / 2 ^ 49 :: rat) - 12298 / 1000\<bar> < 1 / 2000"
  by simp

lemma angle_5_near: "\<bar>(6047665796488889 / 2 ^ 43 :: rat) - 68754 / 100\<bar> < 1 / 10 ^ 12"
  by simp

text \<open>
  The angle of petal 5 is not the number 687.54. The literal \<open>137.508\<close> denotes the binary64
  value \<open>4838132637191111 / 2 ^ 45\<close>, a little above 137.508; five times that value rounds
  to \<open>6047665796488889 / 2 ^ 43\<close>, printed as 687.5400000000001, one unit in the last place
  above the binary64 value of \<open>687.54\<close> and different from the decimal 687.54 as well.
\<close>

theorem petal_five_angle_counterexample:
  "p_angle (SvgRose_petal 0 5) \<noteq> lit (68754 / 100)
   \<and> p_angle (SvgRose_petal 0 5) \<noteq> 68754 / 100
   \<and> p_angle (Rose_petal 0 5) \<noteq> lit (68754 / 100)
   \<and> p_angle (Rose_petal 0 5) \<noteq> 68754 / 100"
proof -
  have a: "p_angle (Rose_petal 0 5) = 6047665796488889 / 2 ^ 43"
    using angle_5 by (simp add: Rose_petal_fields)
  show ?thesis
    unfolding SvgRose_petal_eq a lit_687_54 by simp
qed

text \<open>
  C2. For both large rose generators (24 petals, golden angle 137.508) the petal at index 5
  has the angle \<open>6047665796488889 / 2 ^ 43\<close>, the binary64 product \<open>5 * 137.508\<close>, which is
  one unit in the last place above the number 687.54 and within \<open>10\<^sup>-\<^sup>1\<^sup>2\<close> of it; its radial
  distance \<open>sqrt 5 * 5.5\<close> is within 0.0005 of 12.298; and its colour index is 1.
\<close>

theorem petal_five_values:
  "p_angle (Rose_petal delay 5) = fmul 5 (lit (137508 / 1000))
   \<and> p_dist (Rose_petal delay 5) = fmul (Math_sqrt 5) (lit (55 / 10))
   \<and> p_ci (Rose_petal delay 5) = Math_floor (fmul (fdiv 5 24) 9)
   \<and> p_angle (SvgRose_petal delay 5) = 6047665796488889 / 2 ^ 43
   \<and> p_angle (Rose_petal delay 5) = 6047665796488889 / 2 ^ 43
   \<and> p_angle (Rose_petal delay 5) = lit (68754 / 100) + 1 / 2 ^ 43
   \<and> \<bar>p_angle (Rose_petal delay 5) - 68754 / 100\<bar> < 1 / 10 ^ 12
   \<and> p_dist (SvgRose_petal delay 5) = 6923369000792167 / 2 ^ 49
   \<and> p_dist (Rose_petal delay 5) = 6923369000792167 / 2 ^ 49
   \<and> \<bar>p_dist (Rose_petal delay 5) - 12298 / 1000\<bar> < 1 / 2000
   \<and> p_ci (SvgRose_petal delay 5) = 1
   \<and> p_ci (Rose_petal delay 5) = 1"
proof -
  have a: "p_angle (Rose_petal delay 5) = 6047665796488889 / 2 ^ 43"
    using angle_5 by (simp add: Rose_petal_fields)
  have d: "p_dist (Rose_petal delay 5) = 6923369000792167 / 2 ^ 49"
    using dist_5 by (simp add: Rose_petal_fields)
  have "Math_floor (fmul (fdiv (of_nat 5) 24) 9) = 1"
    using table_nth [OF ci_table, of 5] by simp
  then have c: "p_ci (Rose_petal delay 5) = 1"
    by (simp add: Rose_petal_fields Math_min_def)
  have f: "Math_floor (fmul (fdiv 5 24) 9) = 1"
    using table_nth [OF ci_table, of 5] by simp
  have e: "fmul 5 (lit (137508 / 1000)) = 6047665796488889 / 2 ^ 43"
    "fmul (Math_sqrt 5) (lit (55 / 10)) = 6923369000792167 / 2 ^ 49"
    using angle_5 dist_5 by (simp_all add: GOLDEN_ANGLE_def)
  show ?thesis
    unfolding SvgRose_petal_eq a d c e f using lit_687_54 dist_5_near angle_5_near by simp
qed

subsection \<open>Boundary petals\<close>

lemma sqrt_zero_dist: "fmul (Math_sqrt 0) (lit (55 / 10)) = 0"
  by code_simp

lemma scale_0: "fadd (lit (35 / 100)) (fmul (fdiv 0 24) (lit (75 / 100))) = lit (35 / 100)"
  by code_simp

lemma scale_23: "fadd (lit (35 / 100)) (fmul (fdiv 23 24) (lit (75 / 100))) = lit (106875 / 100000)
   \<and> fadd (lit (35 / 100)) (fdiv (fmul (lit (75 / 100)) 23) 24) = lit (106875 / 100000)
   \<and> lit (106875 / 100000) < lit (11 / 10) \<and> lit (106875 / 100000) < 11 / 10
   \<and> \<bar>lit (106875 / 100000) - 106875 / 100000\<bar> < 1 / 10 ^ 15"
  by code_simp

text \<open>
  C8. For both large rose generators the first petal is exactly centred (radial distance
  \<open>sqrt 0 * 5.5 = 0\<close>) and has scale 0.35; the last petal, index 23, has the scale
  \<open>0.35 + 0.75 * 23 / 24\<close> (the number 1.06875, in the source's and in this order of
  evaluation), which is strictly less than 1.1.
\<close>

theorem rose_boundary_values:
  "Math_sqrt 0 = 0
   \<and> p_dist (SvgRose_petal delay 0) = 0
   \<and> p_dist (Rose_petal delay 0) = 0
   \<and> p_petalScale (SvgRose_petal delay 0) = lit (35 / 100)
   \<and> p_petalScale (Rose_petal delay 0) = lit (35 / 100)
   \<and> p_petalScale (SvgRose_petal delay 23) = fadd (lit (35 / 100)) (fdiv (fmul (lit (75 / 100)) 23) 24)
   \<and> p_petalScale (Rose_petal delay 23) = fadd (lit (35 / 100)) (fdiv (fmul (lit (75 / 100)) 23) 24)
   \<and> p_petalScale (Rose_petal delay 23) = lit (106875 / 100000)
   \<and> p_petalScale (SvgRose_petal delay 23) < lit (11 / 10)
   \<and> p_petalScale (Rose_petal delay 23) < lit (11 / 10)
   \<and> p_petalScale (Rose_petal delay 23) < 11 / 10"
proof -
  have z: "Math_sqrt 0 = 0" using sqrt_squares by simp
  have d: "p_dist (Rose_petal delay 0) = 0"
    using sqrt_zero_dist by (simp add: Rose_petal_fields)
  have s0: "p_petalScale (Rose_petal delay 0) = lit (35 / 100)"
    using scale_0 by (simp add: Rose_petal_fields)
  have s23: "p_petalScale (Rose_petal delay 23) = lit (106875 / 100000)"
    using scale_23 by (simp add: Rose_petal_fields)
  show ?thesis
    unfolding SvgRose_petal_eq d s0 s23 using z scale_23 by simp
qed

subsection \<open>The two large rose generators\<close>

text \<open>
  C9. \<open>SvgRose\<close> and \<open>Rose\<close> compute the same petal for every index and delay, hence the
  same list of 24 petals: the angle \<open>i * 137.508\<close>, the radial distance \<open>sqrt i * 5.5\<close>, the
  scale \<open>0.35 + (i / 24) * 0.75\<close>, the colour index \<open>min (floor ((i / 24) * 9)) 8\<close>, the
  rotation \<open>angle + 90\<close> and the reveal delay \<open>delay + i * 0.04\<close>, each in binary64 arithmetic.
\<close>

theorem SvgRose_Rose_same_petals:
  "SvgRose_petal delay i = Rose_petal delay i
   \<and> SvgRose delay = Rose delay
   \<and> length (SvgRose delay) = 24 \<and> length (Rose delay) = 24
   \<and> p_angle (SvgRose_petal delay i) = fmul (of_nat i) (lit (137508 / 1000))
   \<and> p_angle (Rose_petal delay i) = fmul (of_nat i) (lit (137508 / 1000))
   \<and> p_dist (SvgRose_petal delay i) = fmul (Math_sqrt (of_nat i)) (lit (55 / 10))
   \<and> p_dist (Rose_petal delay i) = fmul (Math_sqrt (of_nat i)) (lit (55 / 10))
   \<and> p_petalScale (SvgRose_petal delay i) = fadd (lit (35 / 100)) (fmul (fdiv (of_nat i) 24) (lit (75 / 100)))
   \<and> p_petalScale (Rose_petal delay i) = fadd (lit (35 / 100)) (fmul (fdiv (of_nat i) 24) (lit (75 / 100)))
   \<and> p_ci (SvgRose_petal delay i) = Math_min (Math_floor (fmul (fdiv (of_nat i) 24) 9)) 8
   \<and> p_ci (Rose_petal delay i) = Math_min (Math_floor (fmul (fdiv (of_nat i) 24) 9)) 8
   \<and> p_rotate (SvgRose_petal delay i) = fadd (p_angle (SvgRose_petal delay i)) 90
   \<and> p_rotate (Rose_petal delay i) = fadd (p_angle (Rose_petal delay i)) 90
   \<and> t_delay (p_transition (SvgRose_petal delay i)) = fadd delay (fmul (of_nat i) (lit (4 / 100)))
   \<and> t_delay (p_transition (Rose_petal delay i)) = fadd delay (fmul (of_nat i) (lit (4 / 100)))"
  by (simp add: SvgRose_petal_def Rose_petal_def SvgRose_def Rose_def Let_def NUM_PETALS_def
      palette_size nine_minus_one GOLDEN_ANGLE_def)

subsection \<open>Reveal delay\<close>








subsection \<open>Small rose icon\<close>

lemma icon_zero:
  "fadd (lit (4 / 10)) (fmul (fdiv 0 12) (lit (6 / 10))) = lit (4 / 10)
   \<and> fmul (lit (4 / 10)) (lit (45 / 100)) = lit (18 / 100) + 1 / 2 ^ 55
   \<and> fadd (lit (35 / 100)) (fmul (fdiv 0 12) (lit (75 / 100))) = lit (35 / 100)
   \<and> lit (4 / 10) \<noteq> lit (35 / 100)
   \<and> lit (18 / 100) + 1 / 2 ^ 55 \<noteq> lit (35 / 100)
   \<and> fmul (Math_sqrt 1) 4 = 4 \<and> fmul (Math_sqrt 1) (lit (55 / 10)) \<noteq> 4"
  by code_simp

text \<open>
  The small icon does not scale its petals by \<open>0.35 + (i / 12) * 0.75\<close>: at index 0 that
  formula gives 0.35, while the icon computes \<open>s = 0.4\<close> and draws the petal at scale
  \<open>s * 0.45\<close>, the number 0.18000000000000002.
\<close>

theorem small_icon_scale_counterexample:
  "i_scale (SmallRoseIcon_petal 0) \<noteq> fadd (lit (35 / 100)) (fmul (fdiv (of_nat 0) 12) (lit (75 / 100)))
   \<and> i_s (SmallRoseIcon_petal 0) \<noteq> fadd (lit (35 / 100)) (fmul (fdiv (of_nat 0) 12) (lit (75 / 100)))
   \<and> i_scale (SmallRoseIcon_petal 0) \<noteq> lit (35 / 100)
   \<and> i_s (SmallRoseIcon_petal 0) \<noteq> lit (35 / 100)"
  using icon_zero by (simp add: SmallRoseIcon_petal_fields)

text \<open>
  C6. The small rose icon has 12 petals and takes the angle \<open>i * 137.508\<close>, the rotation
  \<open>angle + 90\<close> and the colour index \<open>min (floor ((i / 12) * 9)) 8\<close> as the large rose does with
  12 in place of 24, but it has constants of its own: the radial distance is \<open>sqrt i * 4\<close>
  and the petal is drawn at scale \<open>s * 0.45\<close> with \<open>s = 0.4 + (i / 12) * 0.6\<close>. At index 0,
  \<open>s\<close> is 0.4 and the scale is 0.18000000000000002; at index 1 the radial distance is 4,
  which the large rose's \<open>sqrt 1 * 5.5\<close> is not.
\<close>

theorem small_icon_petals:
  "length SmallRoseIcon = 12
   \<and> i_a (SmallRoseIcon_petal i) = fmul (of_nat i) (lit (137508 / 1000))
   \<and> i_rotate (SmallRoseIcon_petal i) = fadd (i_a (SmallRoseIcon_petal i)) 90
   \<and> i_ci (SmallRoseIcon_petal i) = Math_min (Math_floor (fmul (fdiv (of_nat i) 12) 9)) 8
   \<and> i_d (SmallRoseIcon_petal i) = fmul (Math_sqrt (of_nat i)) 4
   \<and> i_s (SmallRoseIcon_petal i) = fadd (lit (4 / 10)) (fmul (fdiv (of_nat i) 12) (lit (6 / 10)))
   \<and> i_scale (SmallRoseIcon_petal i) = fmul (i_s (SmallRoseIcon_petal i)) (lit (45 / 100))
   \<and> i_s (SmallRoseIcon_petal 0) = lit (4 / 10)
   \<and> i_scale (SmallRoseIcon_petal 0) = lit (18 / 100) + 1 / 2 ^ 55
   \<and> i_d (SmallRoseIcon_petal 1) = 4
   \<and> p_dist (Rose_petal delay 1) \<noteq> 4"
  using icon_zero
  by (simp add: SmallRoseIcon_petal_fields Rose_petal_fields GOLDEN_ANGLE_def SmallRoseIcon_def)


section \<open>Hero timeline: windows\<close>

lemma hero_text_windows:
  "window title_strokeDashoffset = (lit (3 / 10), lit (23 / 10))
   \<and> window title_fillOpacity = (lit (18 / 10), lit (26 / 10))
   \<and> window location_text = (lit (25 / 10), lit (33 / 10))
   \<and> window date_text = (3, 4)"
  by code_simp

lemma hero_separator_windows:
  "window separator_1 = (lit (23 / 10), lit (31 / 10) - 1 / 2 ^ 51)
   \<and> window separator_2 = (lit (28 / 10), lit (36 / 10) - 1 / 2 ^ 51)
   \<and> lit (28 / 10) < lit (31 / 10) - 1 / 2 ^ 51
   \<and> lit (28 / 10) < lit (36 / 10) - 1 / 2 ^ 51"
  by code_simp

lemma hero_rose_windows:
  "map (window \<circ> Rose_wrapper \<circ> fst) RoseCluster_roses =
     [(lit (23 / 10) + 1 / 2 ^ 51, lit (28 / 10) + 1 / 2 ^ 51),
      (lit (25 / 10), 3),
      (lit (26 / 10), lit (31 / 10)),
      (lit (22 / 10), lit (27 / 10))]"
  by code_simp

lemma hero_last_petal_delay:
  "fadd (fadd baseDelay (lit (4 / 10))) (fmul (of_nat 23) (lit (4 / 100))) = lit (352 / 100)
   \<and> fadd (lit (352 / 100)) (lit (55 / 100)) = lit (407 / 100)"
  by code_simp

lemma hero_literal_order:
  "lit (22 / 10) < lit (23 / 10) + 1 / 2 ^ 51 \<and> lit (22 / 10) < lit (25 / 10)
   \<and> lit (22 / 10) < lit (26 / 10) \<and> lit (28 / 10) + 1 / 2 ^ 51 < lit (31 / 10)
   \<and> 3 < lit (31 / 10) \<and> lit (27 / 10) < lit (31 / 10) \<and> lit (31 / 10) < lit (407 / 100)
   \<and> \<bar>lit (31 / 10) - 1 / 2 ^ 51 - 31 / 10\<bar> < 1 / 10 ^ 15
   \<and> \<bar>lit (36 / 10) - 1 / 2 ^ 51 - 36 / 10\<bar> < 1 / 10 ^ 15"
  by code_simp

text \<open>
  Neither separator fades over 2.3 s to 2.8 s: the first starts at 2.3 s and is still fading
  at 2.8 s, when the second only starts.
\<close>

theorem hero_separator_counterexample:
  "window separator_1 \<noteq> (lit (23 / 10), lit (28 / 10))
   \<and> window separator_2 \<noteq> (lit (23 / 10), lit (28 / 10))
   \<and> lit (28 / 10) < snd (window separator_1)
   \<and> lit (28 / 10) < snd (window separator_2)"
  using hero_separator_windows by simp

text \<open>
  C7. Every hero element plays over the window from its own literal delay to delay plus
  duration: the title stroke over 0.3 s to 2.3 s, the title fill over 1.8 s to 2.6 s, the
  location text over 2.5 s to 3.3 s and the date text over 3.0 s to 4.0 s. The first
  separator starts at 2.3 s and ends at 3.1 s, the second starts at 2.8 s and ends at 3.6 s
  (the ends to within \<open>10\<^sup>-\<^sup>1\<^sup>5\<close>). The containers of the side roses scale in within 2.2 s to
  3.1 s, the earliest over 2.2 s to 2.7 s and the latest over 2.6 s to 3.1 s, while the last
  petal of the latest rose plays over 3.52 s to 4.07 s, after 3.1 s. A window is a function
  of the element's own delay and duration only.
\<close>

theorem hero_timeline_windows:
  "window title_strokeDashoffset = (lit (3 / 10), lit (23 / 10))
   \<and> window title_fillOpacity = (lit (18 / 10), lit (26 / 10))
   \<and> window location_text = (lit (25 / 10), lit (33 / 10))
   \<and> window date_text = (3, 4)
   \<and> fst (window separator_1) = lit (23 / 10)
   \<and> \<bar>snd (window separator_1) - 31 / 10\<bar> < 1 / 10 ^ 15
   \<and> fst (window separator_2) = lit (28 / 10)
   \<and> \<bar>snd (window separator_2) - 36 / 10\<bar> < 1 / 10 ^ 15
   \<and> window (Rose_wrapper baseDelay) = (lit (22 / 10), lit (27 / 10))
   \<and> list_all (\<lambda>w. lit (22 / 10) \<le> fst w \<and> snd w \<le> lit (31 / 10))
        (map (window \<circ> Rose_wrapper \<circ> fst) RoseCluster_roses)
   \<and> window (Rose_wrapper (fadd baseDelay (lit (4 / 10)))) = (lit (26 / 10), lit (31 / 10))
   \<and> window (p_transition (Rose_petal (fadd baseDelay (lit (4 / 10))) 23))
       = (lit (352 / 100), lit (407 / 100))
   \<and> lit (31 / 10) < lit (407 / 100)
   \<and> (\<forall>t. window t = (t_delay t, fadd (t_delay t) (t_duration t)))"
proof -
  have r: "window (Rose_wrapper baseDelay) = (lit (22 / 10), lit (27 / 10))"
    "window (Rose_wrapper (fadd baseDelay (lit (4 / 10)))) = (lit (26 / 10), lit (31 / 10))"
    using hero_rose_windows by (simp_all add: RoseCluster_roses_def)
  have p: "window (p_transition (Rose_petal (fadd baseDelay (lit (4 / 10))) 23))
       = (lit (352 / 100), lit (407 / 100))"
    using hero_last_petal_delay by (simp add: window_def Rose_petal_fields)
  have l: "list_all (\<lambda>w. lit (22 / 10) \<le> fst w \<and> snd w \<le> lit (31 / 10))
        (map (window \<circ> Rose_wrapper \<circ> fst) RoseCluster_roses)"
    unfolding hero_rose_windows using hero_literal_order by simp
  have s: "fst (window separator_1) = lit (23 / 10)"
    "\<bar>snd (window separator_1) - 31 / 10\<bar> < 1 / 10 ^ 15"
    "fst (window separator_2) = lit (28 / 10)"
    "\<bar>snd (window separator_2) - 36 / 10\<bar> < 1 / 10 ^ 15"
    using hero_separator_windows hero_literal_order by simp_all
  have w: "\<forall>t. window t = (t_delay t, fadd (t_delay t) (t_duration t))"
    by (simp add: window_def)
  show ?thesis
    using hero_text_windows r p l s w hero_literal_order by blast
qed

end
